theory Spec2Isabelle
  imports Main
begin

section \<open>Data model of pilot/pkg/security/authz/builder\<close>

text \<open>
  Go pointers that the code compares with \<open>nil\<close> are values of \<open>'a ptr\<close>:
  \<open>NilPtr\<close> is the nil pointer, \<open>Ptr x\<close> a pointer to \<open>x\<close>.
\<close>

datatype 'a ptr = NilPtr | Ptr 'a

text \<open>The action of an Envoy RBAC rule set (\<open>rbacpb.RBAC_ALLOW\<close>, \<open>rbacpb.RBAC_DENY\<close>).\<close>

datatype RBAC_Action = RBAC_ALLOW | RBAC_DENY

text \<open>
  \<open>rbacpb.RBAC\<close>: the action and the Go map \<open>map[string]*rbacpb.Policy\<close>. The generated
  policy itself is opaque to the builder: the type variable \<open>'g\<close>.
\<close>

record 'g rbacpb_RBAC =
  Action :: RBAC_Action
  Policies :: "string \<rightharpoonup> 'g ptr"

text \<open>\<open>rbachttppb.RBAC\<close> (the HTTP filter's configuration) and \<open>rbactcppb.RBAC\<close>.\<close>

record 'g rbachttppb_RBAC =
  http_Rules :: "'g rbacpb_RBAC ptr"

record 'g rbactcppb_RBAC =
  tcp_Rules :: "'g rbacpb_RBAC ptr"
  StatPrefix :: string

text \<open>The two protocol messages handed to \<open>util.MessageToAny\<close>.\<close>

datatype 'g message = HTTP_RBAC "'g rbachttppb_RBAC" | TCP_RBAC "'g rbactcppb_RBAC"

text \<open>
  \<open>httppb.HttpFilter\<close> and \<open>tcppb.Filter\<close>: a name and the typed configuration
  (the \<open>ConfigType\<close> one-of always holds a \<open>TypedConfig\<close> here).
\<close>

record 'a HttpFilter =
  http_Name :: string
  http_TypedConfig :: 'a

record 'a Filter =
  tcp_Name :: string
  tcp_TypedConfig :: 'a

text \<open>
  Modelled from the spec: the declaration of \<open>model.AuthorizationPolicyConfig\<close> is not
  part of the source file; section 3 of the specification gives a policy configuration
  as a namespace, a name and an ordered sequence of rule specifications whose entries
  may be nil. \<open>Rules p\<close> stands for \<open>policy.AuthorizationPolicy.Rules\<close>; a rule
  specification is opaque (\<open>'r\<close>).
\<close>

record 'r AuthorizationPolicyConfig =
  Name :: string
  Namespace :: string
  Rules :: "'r ptr list"

text \<open>The \<open>Builder\<close> struct.\<close>

record ('b, 'r) Builder =
  trustDomainBundle :: 'b
  denyPolicies :: "'r AuthorizationPolicyConfig list"
  allowPolicies :: "'r AuthorizationPolicyConfig list"

text \<open>
  Modelled from the spec: the packages \<open>authzmodel\<close> and \<open>util\<close> are not part of the
  source file. Section 6 of the specification gives their interface: constructing a
  rule model from a rule fails or yields a model; trust-domain migration signals no
  failure; generation fails, or yields a generated policy, or yields nil. They are
  parameters of the builder, collected in one record together with the three constants
  of \<open>authzmodel\<close> that the filter assembler reads. Errors are opaque (\<open>'e\<close>), as are
  rule models (\<open>'m\<close>), bundles (\<open>'b\<close>) and the serialised message (\<open>'a\<close>).
\<close>

record ('r, 'm, 'b, 'e, 'g, 'a) env =
  authzmodel_New :: "'r \<Rightarrow> 'e + 'm"
  MigrateTrustDomain :: "'m \<Rightarrow> 'b \<Rightarrow> 'm"
  Generate :: "'m \<Rightarrow> bool \<Rightarrow> bool \<Rightarrow> 'e + 'g ptr"
  RBACHTTPFilterName :: string
  RBACTCPFilterName :: string
  RBACTCPFilterStatPrefix :: string
  MessageToAny :: "'g message \<Rightarrow> 'a"

text \<open>
  The calls on \<open>authzLog\<close>, in the order they are issued:
  \<open>Errorf("skipped nil rule %s", name)\<close>, \<open>Errorf("skipped rule %s: %v", name, err)\<close>
  and \<open>Debugf("rule %s generated policy: %+v", name, generated)\<close>.
\<close>

datatype ('e, 'g) log_call =
    Errorf_skipped_nil_rule string
  | Errorf_skipped_rule string 'e
  | Debugf_generated string "'g ptr"

text \<open>What the loops of \<open>build\<close> mutate: the rule set under construction and the log.\<close>

record ('e, 'g) build_state =
  rules :: "'g rbacpb_RBAC"
  logged :: "('e, 'g) log_call list"

section \<open>Synthetic names\<close>

text \<open>
  \<open>%d\<close> of a range index (never negative): the decimal digits, most significant first.
\<close>

definition digit_char :: "nat \<Rightarrow> char" where
  "digit_char d = char_of (48 + d)"

function fmt_d :: "nat \<Rightarrow> string" where
  "fmt_d n = (if n < 10 then [digit_char n] else fmt_d (n div 10) @ [digit_char (n mod 10)])"
  by pat_completeness auto
termination
  by (relation "measure id") auto

declare fmt_d.simps [simp del]

text \<open>\<open>fmt.Sprintf("ns[%s]-policy[%s]-rule[%d]", policy.Namespace, policy.Name, i)\<close>.\<close>

definition synthetic_name :: "'r AuthorizationPolicyConfig \<Rightarrow> nat \<Rightarrow> string" where
  "synthetic_name policy i =
     ''ns['' @ Namespace policy @ '']-policy['' @ Name policy @ '']-rule['' @ fmt_d i @ '']''"

section \<open>The aggregator: build\<close>

text \<open>
  The body of the inner loop, for the rule at index \<open>i\<close> of \<open>policy\<close>; every
  \<open>continue\<close> of the source is a branch that returns the state it has reached.
\<close>

definition process_rule ::
  "('r, 'm, 'b, 'e, 'g, 'a) env \<Rightarrow> 'b \<Rightarrow> bool \<Rightarrow> bool \<Rightarrow> 'r AuthorizationPolicyConfig \<Rightarrow>
     nat \<Rightarrow> 'r ptr \<Rightarrow> ('e, 'g) build_state \<Rightarrow> ('e, 'g) build_state" where
  "process_rule X tdBundle forTCP forDeny policy i rule s =
     (let name = synthetic_name policy i in
        (case rule of
           NilPtr \<Rightarrow> s\<lparr>logged := logged s @ [Errorf_skipped_nil_rule name]\<rparr>
         | Ptr r \<Rightarrow>
             (case authzmodel_New X r of
                Inl err \<Rightarrow> s\<lparr>logged := logged s @ [Errorf_skipped_rule name err]\<rparr>
              | Inr m \<Rightarrow>
                  (case Generate X (MigrateTrustDomain X m tdBundle) forTCP forDeny of
                     Inl err \<Rightarrow> s\<lparr>logged := logged s @ [Errorf_skipped_rule name err]\<rparr>
                   | Inr generated \<Rightarrow>
                       (if generated \<noteq> NilPtr
                        then s\<lparr>rules := (rules s)\<lparr>Policies := (Policies (rules s))(name \<mapsto> generated)\<rparr>,
                               logged := logged s @ [Debugf_generated name generated]\<rparr>
                        else s)))))"

text \<open>
  \<open>for i, rule := range policy.AuthorizationPolicy.Rules\<close>: the body runs on every
  rule with its zero-based index, in order.
\<close>

definition process_policy ::
  "('r, 'm, 'b, 'e, 'g, 'a) env \<Rightarrow> 'b \<Rightarrow> bool \<Rightarrow> bool \<Rightarrow> 'r AuthorizationPolicyConfig \<Rightarrow>
     ('e, 'g) build_state \<Rightarrow> ('e, 'g) build_state" where
  "process_policy X tdBundle forTCP forDeny policy s =
     fold (\<lambda>(i, rule). process_rule X tdBundle forTCP forDeny policy i rule)
       (enumerate 0 (Rules policy)) s"

text \<open>
  \<open>build\<close>: nil for an empty policy list; otherwise the rule set after the loop over
  the policies (\<open>for _, policy := range policies\<close>).
  The second component is the sequence of log calls of the run.
\<close>

definition build ::
  "('r, 'm, 'b, 'e, 'g, 'a) env \<Rightarrow> 'r AuthorizationPolicyConfig list \<Rightarrow> 'b \<Rightarrow> bool \<Rightarrow> bool \<Rightarrow>
     'g rbachttppb_RBAC ptr \<times> ('e, 'g) log_call list" where
  "build X policies tdBundle forTCP forDeny =
     (if length policies = 0 then (NilPtr, [])
      else
        let rules0 = \<lparr>Action = RBAC_ALLOW, Policies = Map.empty\<rparr>;
            rules1 = (if forDeny then rules0\<lparr>Action := RBAC_DENY\<rparr> else rules0);
            s = fold (process_policy X tdBundle forTCP forDeny) policies
                  \<lparr>rules = rules1, logged = []\<rparr>
        in (Ptr \<lparr>http_Rules = Ptr (rules s)\<rparr>, logged s))"

section \<open>The filter assembler\<close>

definition createHTTPFilter ::
  "('r, 'm, 'b, 'e, 'g, 'a) env \<Rightarrow> 'g rbachttppb_RBAC ptr \<Rightarrow> 'a HttpFilter ptr" where
  "createHTTPFilter X config =
     (case config of
        NilPtr \<Rightarrow> NilPtr
      | Ptr c \<Rightarrow>
          Ptr \<lparr>http_Name = RBACHTTPFilterName X, http_TypedConfig = MessageToAny X (HTTP_RBAC c)\<rparr>)"

definition createTCPFilter ::
  "('r, 'm, 'b, 'e, 'g, 'a) env \<Rightarrow> 'g rbachttppb_RBAC ptr \<Rightarrow> 'a Filter ptr" where
  "createTCPFilter X config =
     (case config of
        NilPtr \<Rightarrow> NilPtr
      | Ptr c \<Rightarrow>
          let rbacConfig = \<lparr>tcp_Rules = http_Rules c, StatPrefix = RBACTCPFilterStatPrefix X\<rparr>
          in Ptr \<lparr>tcp_Name = RBACTCPFilterName X, tcp_TypedConfig = MessageToAny X (TCP_RBAC rbacConfig)\<rparr>)"

section \<open>The builder\<close>

text \<open>
  \<open>New\<close>. The policy selector \<open>policies.ListAuthorizationPolicies\<close> is not part of the
  source file and is a parameter: from the policy repository, the namespace and the
  workload labels it yields the deny list and the allow list.
\<close>

definition New ::
  "('p \<Rightarrow> string \<Rightarrow> 'w \<Rightarrow> 'r AuthorizationPolicyConfig list \<times> 'r AuthorizationPolicyConfig list) \<Rightarrow>
     'b \<Rightarrow> 'w \<Rightarrow> string \<Rightarrow> 'p \<Rightarrow> ('b, 'r) Builder ptr" where
  "New ListAuthorizationPolicies tdBundle workload namespace policies =
     (case ListAuthorizationPolicies policies namespace workload of
        (denyPols, allowPols) \<Rightarrow>
          if length denyPols = 0 \<and> length allowPols = 0 then NilPtr
          else Ptr \<lparr>trustDomainBundle = tdBundle, denyPolicies = denyPols, allowPolicies = allowPols\<rparr>)"

text \<open>
  \<open>BuildHTTP\<close> and \<open>BuildTCP\<close>: the deny aggregation, then the allow aggregation; each
  configuration that is not nil is wrapped and appended. The second component is the
  log of the two runs.
\<close>

definition BuildHTTP ::
  "('r, 'm, 'b, 'e, 'g, 'a) env \<Rightarrow> ('b, 'r) Builder \<Rightarrow>
     'a HttpFilter ptr list \<times> ('e, 'g) log_call list" where
  "BuildHTTP X b =
     (let filters = [];
          (denyConfig, log1) = build X (denyPolicies b) (trustDomainBundle b) False True;
          filters = (if denyConfig \<noteq> NilPtr then filters @ [createHTTPFilter X denyConfig]
                     else filters);
          (allowConfig, log2) = build X (allowPolicies b) (trustDomainBundle b) False False;
          filters = (if allowConfig \<noteq> NilPtr then filters @ [createHTTPFilter X allowConfig]
                     else filters)
      in (filters, log1 @ log2))"

definition BuildTCP ::
  "('r, 'm, 'b, 'e, 'g, 'a) env \<Rightarrow> ('b, 'r) Builder \<Rightarrow>
     'a Filter ptr list \<times> ('e, 'g) log_call list" where
  "BuildTCP X b =
     (let filters = [];
          (denyConfig, log1) = build X (denyPolicies b) (trustDomainBundle b) True True;
          filters = (if denyConfig \<noteq> NilPtr then filters @ [createTCPFilter X denyConfig]
                     else filters);
          (allowConfig, log2) = build X (allowPolicies b) (trustDomainBundle b) True False;
          filters = (if allowConfig \<noteq> NilPtr then filters @ [createTCPFilter X allowConfig]
                     else filters)
      in (filters, log1 @ log2))"

section \<open>Notions used to state the properties\<close>

text \<open>
  What one rule yields when it is looked at alone, as the specification describes it
  (section 4.1): no entry and a diagnostic for a nil rule (\<open>Inl None\<close>) and for a rule
  whose construction or generation fails (\<open>Inl (Some err)\<close>), and otherwise the
  generation result, which may be nil.
\<close>

definition rule_outcome ::
  "('r, 'm, 'b, 'e, 'g, 'a) env \<Rightarrow> 'b \<Rightarrow> bool \<Rightarrow> bool \<Rightarrow> 'r ptr \<Rightarrow> 'e option + 'g ptr" where
  "rule_outcome X tdBundle forTCP forDeny rule =
     (case rule of
        NilPtr \<Rightarrow> Inl None
      | Ptr r \<Rightarrow>
          (case authzmodel_New X r of
             Inl err \<Rightarrow> Inl (Some err)
           | Inr m \<Rightarrow>
               (case Generate X (MigrateTrustDomain X m tdBundle) forTCP forDeny of
                  Inl err \<Rightarrow> Inl (Some err)
                | Inr generated \<Rightarrow> Inr generated)))"

text \<open>A per-rule failure: the rule is nil, or its construction fails, or its generation fails.\<close>

definition rule_fails ::
  "('r, 'm, 'b, 'e, 'g, 'a) env \<Rightarrow> 'b \<Rightarrow> bool \<Rightarrow> bool \<Rightarrow> 'r ptr \<Rightarrow> bool" where
  "rule_fails X tdBundle forTCP forDeny rule =
     (case rule of
        NilPtr \<Rightarrow> True
      | Ptr r \<Rightarrow>
          (case authzmodel_New X r of
             Inl err \<Rightarrow> True
           | Inr m \<Rightarrow> isl (Generate X (MigrateTrustDomain X m tdBundle) forTCP forDeny)))"

text \<open>
  The specification's view of the aggregation: the (policy, index, rule) triples in
  processing order, the entry each one contributes on its own (at most one), and the
  log call each one issues on its own (at most one).
\<close>

definition rule_pairs ::
  "'r AuthorizationPolicyConfig list \<Rightarrow> ('r AuthorizationPolicyConfig \<times> nat \<times> 'r ptr) list" where
  "rule_pairs policies =
     concat (map (\<lambda>policy. map (Pair policy) (enumerate 0 (Rules policy))) policies)"

definition rule_entry ::
  "('r, 'm, 'b, 'e, 'g, 'a) env \<Rightarrow> 'b \<Rightarrow> bool \<Rightarrow> bool \<Rightarrow>
     'r AuthorizationPolicyConfig \<times> nat \<times> 'r ptr \<Rightarrow> (string \<times> 'g ptr) list" where
  "rule_entry X tdBundle forTCP forDeny pir =
     (case pir of (policy, i, rule) \<Rightarrow>
        (case rule_outcome X tdBundle forTCP forDeny rule of
           Inl e \<Rightarrow> []
         | Inr generated \<Rightarrow>
             (case generated of
                NilPtr \<Rightarrow> []
              | Ptr g \<Rightarrow> [(synthetic_name policy i, Ptr g)])))"

definition rule_log ::
  "('r, 'm, 'b, 'e, 'g, 'a) env \<Rightarrow> 'b \<Rightarrow> bool \<Rightarrow> bool \<Rightarrow>
     'r AuthorizationPolicyConfig \<times> nat \<times> 'r ptr \<Rightarrow> ('e, 'g) log_call list" where
  "rule_log X tdBundle forTCP forDeny pir =
     (case pir of (policy, i, rule) \<Rightarrow>
        (case rule_outcome X tdBundle forTCP forDeny rule of
           Inl e \<Rightarrow>
             (case e of
                None \<Rightarrow> [Errorf_skipped_nil_rule (synthetic_name policy i)]
              | Some err \<Rightarrow> [Errorf_skipped_rule (synthetic_name policy i) err])
         | Inr generated \<Rightarrow>
             (case generated of
                NilPtr \<Rightarrow> []
              | Ptr g \<Rightarrow> [Debugf_generated (synthetic_name policy i) (Ptr g)])))"

definition entries ::
  "('r, 'm, 'b, 'e, 'g, 'a) env \<Rightarrow> 'b \<Rightarrow> bool \<Rightarrow> bool \<Rightarrow>
     'r AuthorizationPolicyConfig list \<Rightarrow> (string \<times> 'g ptr) list" where
  "entries X tdBundle forTCP forDeny policies =
     concat (map (rule_entry X tdBundle forTCP forDeny) (rule_pairs policies))"

text \<open>The identity of a policy: its namespace and its name.\<close>

definition policy_key :: "'r AuthorizationPolicyConfig \<Rightarrow> string \<times> string" where
  "policy_key policy = (Namespace policy, Name policy)"

text \<open>The synthetic name under which a (policy, index, rule) triple is processed.\<close>

definition pair_name :: "'r AuthorizationPolicyConfig \<times> nat \<times> 'r ptr \<Rightarrow> string" where
  "pair_name pir = (case pir of (policy, i, rule) \<Rightarrow> synthetic_name policy i)"

text \<open>A triple generates when its rule yields a generated policy that is not nil.\<close>

definition generates ::
  "('r, 'm, 'b, 'e, 'g, 'a) env \<Rightarrow> 'b \<Rightarrow> bool \<Rightarrow> bool \<Rightarrow>
     'r AuthorizationPolicyConfig \<times> nat \<times> 'r ptr \<Rightarrow> bool" where
  "generates X tdBundle forTCP forDeny pir =
     (case rule_outcome X tdBundle forTCP forDeny (snd (snd pir)) of
        Inl e \<Rightarrow> False
      | Inr generated \<Rightarrow> generated \<noteq> NilPtr)"

text \<open>
  The policies mapping that a configuration pointer leads to (\<open>config.Rules.Policies\<close>),
  read as the empty mapping through a nil pointer.
\<close>

definition policies_of :: "'g rbachttppb_RBAC ptr \<Rightarrow> (string \<rightharpoonup> 'g ptr)" where
  "policies_of config =
     (case config of
        NilPtr \<Rightarrow> Map.empty
      | Ptr c \<Rightarrow> (case http_Rules c of NilPtr \<Rightarrow> Map.empty | Ptr rs \<Rightarrow> Policies rs))"

text \<open>The value of a decimal numeral, to read back what \<open>fmt_d\<close> prints.\<close>

definition dec_val :: "string \<Rightarrow> nat" where
  "dec_val s = foldl (\<lambda>acc c. 10 * acc + (of_char c - 48)) 0 s"

section \<open>Collaborators and policies for the concrete runs\<close>

text \<open>
  Rules are numbers: rule 0 fails construction, rule 1 fails generation, rule 2
  generates nil, and any other rule \<open>n\<close> generates the policy \<open>n\<close>. Migration leaves the
  model as it is and serialisation is the identity.
\<close>

definition example_env :: "(nat, nat, unit, string, nat, nat message) env" where
  "example_env =
     \<lparr>authzmodel_New = (\<lambda>r. if r = 0 then Inl ''invalid rule'' else Inr r),
      MigrateTrustDomain = (\<lambda>m b. m),
      Generate = (\<lambda>m forTCP forDeny.
         if m = 1 then Inl ''generation failed'' else if m = 2 then Inr NilPtr else Inr (Ptr m)),
      RBACHTTPFilterName = ''envoy.filters.http.rbac'',
      RBACTCPFilterName = ''envoy.filters.network.rbac'',
      RBACTCPFilterStatPrefix = ''tcp.'',
      MessageToAny = (\<lambda>msg. msg)\<rparr>"

text \<open>A policy of the given namespace and name with the given rules.\<close>

definition example_policy :: "string \<Rightarrow> string \<Rightarrow> nat ptr list \<Rightarrow> nat AuthorizationPolicyConfig" where
  "example_policy ns n rs = \<lparr>Name = n, Namespace = ns, Rules = rs\<rparr>"

text \<open>
  A policy selector over a repository that is a deny list and an allow list: it keeps
  the policies of the namespace asked for.
\<close>

definition example_selector ::
  "nat AuthorizationPolicyConfig list \<times> nat AuthorizationPolicyConfig list \<Rightarrow> string \<Rightarrow> unit \<Rightarrow>
     nat AuthorizationPolicyConfig list \<times> nat AuthorizationPolicyConfig list" where
  "example_selector repo ns workload =
     (filter (\<lambda>p. Namespace p = ns) (fst repo), filter (\<lambda>p. Namespace p = ns) (snd repo))"

text \<open>A builder with one deny policy and one allow policy, of one generating rule each.\<close>

definition example_builder :: "(unit, nat) Builder" where
  "example_builder =
     \<lparr>trustDomainBundle = (),
      denyPolicies = [example_policy ''ns1'' ''deny1'' [Ptr 3]],
      allowPolicies = [example_policy ''ns1'' ''allow1'' [Ptr 4]]\<rparr>"

text \<open>
  A second set of collaborators: it differs from the first only on rule 7, whose
  construction it lets fail.
\<close>

definition example_env' :: "(nat, nat, unit, string, nat, nat message) env" where
  "example_env' =
     example_env\<lparr>authzmodel_New := (\<lambda>r. if r = 0 \<or> r = 7 then Inl ''invalid rule'' else Inr r)\<rparr>"

section \<open>The loops of build, rule by rule\<close>

lemma process_rule_eq:
  "process_rule X td t d p i rule s =
     s\<lparr>rules := (rules s)\<lparr>Policies := Policies (rules s) ++
           map_of (rev (rule_entry X td t d (p, i, rule)))\<rparr>,
       logged := logged s @ rule_log X td t d (p, i, rule)\<rparr>"
  by (simp add: process_rule_def rule_entry_def rule_log_def rule_outcome_def Let_def
      split: ptr.splits sum.splits option.splits)

lemma fold_process_rule:
  "fold (\<lambda>(i, rule). process_rule X td t d p i rule) irs s =
     s\<lparr>rules := (rules s)\<lparr>Policies := Policies (rules s) ++
           map_of (rev (concat (map (rule_entry X td t d) (map (Pair p) irs))))\<rparr>,
       logged := logged s @ concat (map (rule_log X td t d) (map (Pair p) irs))\<rparr>"
proof (induction irs arbitrary: s)
  case Nil
  show ?case by simp
next
  case (Cons ir irs)
  obtain i rule where ir: "ir = (i, rule)" by (cases ir)
  let ?f = "\<lambda>(i, rule). process_rule X td t d p i rule"
  let ?s' = "process_rule X td t d p i rule s"
  have "fold ?f (ir # irs) s = fold ?f irs ?s'"
    by (simp add: ir)
  also have "\<dots> = ?s'\<lparr>rules := (rules ?s')\<lparr>Policies := Policies (rules ?s') ++
                map_of (rev (concat (map (rule_entry X td t d) (map (Pair p) irs))))\<rparr>,
              logged := logged ?s' @ concat (map (rule_log X td t d) (map (Pair p) irs))\<rparr>"
    by (rule Cons.IH)
  also have "\<dots> = s\<lparr>rules := (rules s)\<lparr>Policies := Policies (rules s) ++
                map_of (rev (concat (map (rule_entry X td t d) (map (Pair p) (ir # irs)))))\<rparr>,
              logged := logged s @ concat (map (rule_log X td t d) (map (Pair p) (ir # irs)))\<rparr>"
    by (simp add: ir process_rule_eq)
  finally show ?case .
qed

lemma rule_pairs_Cons:
  "rule_pairs (p # ps) = map (Pair p) (enumerate 0 (Rules p)) @ rule_pairs ps"
  by (simp add: rule_pairs_def)

lemma fold_process_policy:
  "fold (process_policy X td t d) ps s =
     s\<lparr>rules := (rules s)\<lparr>Policies := Policies (rules s) ++ map_of (rev (entries X td t d ps))\<rparr>,
       logged := logged s @ concat (map (rule_log X td t d) (rule_pairs ps))\<rparr>"
proof (induction ps arbitrary: s)
  case Nil
  show ?case by (simp add: entries_def rule_pairs_def)
next
  case (Cons p ps)
  let ?s' = "process_policy X td t d p s"
  have "fold (process_policy X td t d) (p # ps) s = fold (process_policy X td t d) ps ?s'"
    by simp
  also have "\<dots> = ?s'\<lparr>rules := (rules ?s')\<lparr>Policies :=
                Policies (rules ?s') ++ map_of (rev (entries X td t d ps))\<rparr>,
              logged := logged ?s' @ concat (map (rule_log X td t d) (rule_pairs ps))\<rparr>"
    by (rule Cons.IH)
  also have "\<dots> = s\<lparr>rules := (rules s)\<lparr>Policies := Policies (rules s) ++
                map_of (rev (entries X td t d (p # ps)))\<rparr>,
              logged := logged s @ concat (map (rule_log X td t d) (rule_pairs (p # ps)))\<rparr>"
    by (simp add: process_policy_def fold_process_rule entries_def rule_pairs_Cons)
  finally show ?case .
qed

text \<open>The result of \<open>build\<close> in closed form.\<close>

lemma build_eq:
  "build X ps td t d =
     (if ps = [] then (NilPtr, [])
      else (Ptr \<lparr>http_Rules = Ptr \<lparr>Action = (if d then RBAC_DENY else RBAC_ALLOW),
                                     Policies = map_of (rev (entries X td t d ps))\<rparr>\<rparr>,
            concat (map (rule_log X td t d) (rule_pairs ps))))"
  by (simp add: build_def fold_process_policy Let_def)

lemma in_rule_pairs:
  "(p, i, rule) \<in> set (rule_pairs ps) \<longleftrightarrow> p \<in> set ps \<and> i < length (Rules p) \<and> rule = Rules p ! i"
proof -
  have "(p, i, rule) \<in> set (rule_pairs ps) \<longleftrightarrow>
          (\<exists>q\<in>set ps. (p, i, rule) \<in> Pair q ` set (enumerate 0 (Rules q)))"
    by (simp add: rule_pairs_def)
  also have "\<dots> \<longleftrightarrow> p \<in> set ps \<and> (i, rule) \<in> set (enumerate 0 (Rules p))"
    by auto
  finally show ?thesis
    by (auto simp add: in_set_enumerate_eq)
qed

lemma rule_fails_outcome:
  "rule_fails X td t d rule \<longleftrightarrow> isl (rule_outcome X td t d rule)"
  by (simp add: rule_fails_def rule_outcome_def split: ptr.splits sum.splits)

lemma rule_fails_entry:
  "rule_fails X td t d rule \<Longrightarrow> rule_entry X td t d (p, i, rule) = []"
  by (auto simp add: rule_fails_outcome rule_entry_def split: sum.splits)

lemma entries_all_fail:
  assumes "\<forall>p\<in>set ps. \<forall>rule\<in>set (Rules p). rule_fails X td t d rule"
  shows "entries X td t d ps = []"
proof -
  have "rule_entry X td t d pir = []" if "pir \<in> set (rule_pairs ps)" for pir
  proof -
    obtain p i rule where pir: "pir = (p, i, rule)" by (cases pir)
    from that pir have "p \<in> set ps" and "rule \<in> set (Rules p)"
      by (simp_all add: in_rule_pairs)
    with assms have "rule_fails X td t d rule" by blast
    then show ?thesis by (simp add: pir rule_fails_entry)
  qed
  then show ?thesis by (simp add: entries_def)
qed

text \<open>Index 0 and index 1 in decimal, and the definitions that a concrete run unfolds.\<close>

lemma fmt_d_0: "fmt_d 0 = ''0''"
  by code_simp

lemma fmt_d_1: "fmt_d (Suc 0) = ''1''"
  by code_simp

lemmas build_eval =
  build_def process_policy_def process_rule_def synthetic_name_def Let_def fmt_d_0 fmt_d_1

lemma entries_values:
  "(k, v) \<in> set (entries X td t d ps) \<Longrightarrow> \<exists>g. v = Ptr g"
  by (auto simp add: entries_def rule_entry_def split: sum.splits ptr.splits)

lemma entries_keys:
  "(k, v) \<in> set (entries X td t d ps) \<Longrightarrow> \<exists>p\<in>set ps. \<exists>i<length (Rules p). k = synthetic_name p i"
proof -
  assume "(k, v) \<in> set (entries X td t d ps)"
  then obtain pir where pir: "pir \<in> set (rule_pairs ps)" and kv: "(k, v) \<in> set (rule_entry X td t d pir)"
    by (auto simp add: entries_def)
  obtain p i rule where [simp]: "pir = (p, i, rule)" by (cases pir)
  from kv have "k = synthetic_name p i"
    by (auto simp add: rule_entry_def split: sum.splits ptr.splits)
  with pir show ?thesis by (auto simp add: in_rule_pairs)
qed

lemma entries_no_rules:
  "\<forall>p\<in>set ps. Rules p = [] \<Longrightarrow> entries X td t d ps = []"
  by (rule entries_all_fail) simp

text \<open>The two aggregations of the example builder, for either protocol.\<close>

lemma example_build_deny:
  "fst (build example_env (denyPolicies example_builder) (trustDomainBundle example_builder) t True) =
     Ptr \<lparr>http_Rules = Ptr \<lparr>Action = RBAC_DENY,
            Policies = [''ns[ns1]-policy[deny1]-rule[0]'' \<mapsto> Ptr 3]\<rparr>\<rparr>"
  by (simp add: build_eval example_builder_def example_env_def example_policy_def)

lemma example_build_allow:
  "fst (build example_env (allowPolicies example_builder) (trustDomainBundle example_builder) t False) =
     Ptr \<lparr>http_Rules = Ptr \<lparr>Action = RBAC_ALLOW,
            Policies = [''ns[ns1]-policy[allow1]-rule[0]'' \<mapsto> Ptr 4]\<rparr>\<rparr>"
  by (simp add: build_eval example_builder_def example_env_def example_policy_def)

section \<open>Decimal indices and the shape of synthetic names\<close>

lemma of_char_digit_char: "d < 10 \<Longrightarrow> of_char (digit_char d) = 48 + d"
  by (simp add: digit_char_def)

lemma dec_val_snoc: "dec_val (s @ [c]) = 10 * dec_val s + (of_char c - 48)"
  by (simp add: dec_val_def)

lemma dec_val_fmt_d: "dec_val (fmt_d n) = n"
proof (induction n rule: fmt_d.induct)
  case (1 n)
  show ?case
  proof (cases "n < 10")
    case True
    then show ?thesis
      by (simp add: fmt_d.simps [of n] dec_val_def of_char_digit_char)
  next
    case False
    with 1 have "dec_val (fmt_d (n div 10)) = n div 10" by simp
    with False show ?thesis
      by (simp add: fmt_d.simps [of n] dec_val_snoc of_char_digit_char)
  qed
qed

lemma fmt_d_inject: "fmt_d m = fmt_d n \<Longrightarrow> m = n"
  by (metis dec_val_fmt_d)

lemma digit_char_no_bracket:
  assumes "d < 10"
  shows "digit_char d \<noteq> CHR ''['' \<and> digit_char d \<noteq> CHR '']''"
proof -
  have "of_char (digit_char d) = 48 + d" using assms by (rule of_char_digit_char)
  with assms show ?thesis by auto
qed

lemma fmt_d_no_bracket: "CHR ''['' \<notin> set (fmt_d n) \<and> CHR '']'' \<notin> set (fmt_d n)"
proof (induction n rule: fmt_d.induct)
  case (1 n)
  show ?case
  proof (cases "n < 10")
    case True
    with digit_char_no_bracket [of n] show ?thesis
      by (auto simp add: fmt_d.simps [of n])
  next
    case False
    with 1 digit_char_no_bracket [of "n mod 10"] show ?thesis
      by (auto simp add: fmt_d.simps [of n])
  qed
qed

text \<open>
  \<open>fmt_d\<close> prints a decimal numeral: ASCII digits only (codes 48 to 57), at least one,
  and no leading zero but for the number zero itself.
\<close>

lemma digit_char_0: "digit_char 0 = CHR ''0''"
  by code_simp

lemma digit_char_zero:
  assumes "d < 10"
  shows "digit_char d = CHR ''0'' \<longleftrightarrow> d = 0"
proof
  assume "digit_char d = CHR ''0''"
  then have "(of_char (digit_char d) :: nat) = of_char (CHR ''0'')" by simp
  with assms show "d = 0" by (simp add: of_char_digit_char)
next
  assume "d = 0"
  then show "digit_char d = CHR ''0''" by (simp add: digit_char_0)
qed

lemma fmt_d_digits: "list_all (\<lambda>c. 48 \<le> (of_char c :: nat) \<and> (of_char c :: nat) \<le> 57) (fmt_d n)"
proof (induction n rule: fmt_d.induct)
  case (1 n)
  show ?case
  proof (cases "n < 10")
    case True
    then show ?thesis
      by (simp add: fmt_d.simps [of n] of_char_digit_char)
  next
    case False
    with 1 show ?thesis
      by (simp add: fmt_d.simps [of n] of_char_digit_char)
  qed
qed

lemma fmt_d_not_Nil: "fmt_d n \<noteq> []"
  by (simp add: fmt_d.simps [of n])

lemma fmt_d_no_leading_zero: "n \<noteq> 0 \<Longrightarrow> hd (fmt_d n) \<noteq> CHR ''0''"
proof (induction n rule: fmt_d.induct)
  case (1 n)
  show ?case
  proof (cases "n < 10")
    case True
    with 1(2) show ?thesis
      by (simp add: fmt_d.simps [of n] digit_char_zero)
  next
    case False
    then have "n div 10 \<noteq> 0" by simp
    with False 1(1) have "hd (fmt_d (n div 10)) \<noteq> CHR ''0''" by simp
    with False show ?thesis
      by (simp add: fmt_d.simps [of n] fmt_d_not_Nil)
  qed
qed

text \<open>
  A list splits in one way only at the first occurrence of an element, and in one way
  only at its last occurrence.
\<close>

lemma append_Cons_eq_first:
  "c \<notin> set xs \<Longrightarrow> c \<notin> set xs' \<Longrightarrow> xs @ c # ys = xs' @ c # ys' \<Longrightarrow> xs = xs' \<and> ys = ys'"
proof (induction xs arbitrary: xs')
  case Nil
  then show ?case by (cases xs') auto
next
  case (Cons x xs)
  then show ?case by (cases xs') auto
qed

lemma append_Cons_eq_last:
  assumes "c \<notin> set ys" and "c \<notin> set ys'" and eq: "xs @ c # ys = xs' @ c # ys'"
  shows "xs = xs' \<and> ys = ys'"
proof -
  from eq have "rev (xs @ c # ys) = rev (xs' @ c # ys')" by simp
  then have r: "rev ys @ c # rev xs = rev ys' @ c # rev xs'" by simp
  have n: "c \<notin> set (rev ys)" and n': "c \<notin> set (rev ys')" using assms by simp_all
  from append_Cons_eq_first [OF n n' r]
  show ?thesis by simp
qed

text \<open>
  The namespace, the name and the index can be read back from a synthetic name as soon
  as the namespaces hold no closing bracket, or the names no opening bracket.
\<close>

lemma synthetic_name_inject:
  assumes eq: "synthetic_name p i = synthetic_name q j"
    and br: "(CHR '']'' \<notin> set (Namespace p) \<and> CHR '']'' \<notin> set (Namespace q)) \<or>
             (CHR ''['' \<notin> set (Name p) \<and> CHR ''['' \<notin> set (Name q))"
  shows "Namespace p = Namespace q \<and> Name p = Name q \<and> i = j"
proof -
  from eq have e1:
    "(Namespace p @ '']-policy['' @ Name p @ '']-rule'') @ CHR ''['' # (fmt_d i @ '']'') =
     (Namespace q @ '']-policy['' @ Name q @ '']-rule'') @ CHR ''['' # (fmt_d j @ '']'')"
    by (simp add: synthetic_name_def)
  have "CHR ''['' \<notin> set (fmt_d i @ '']'')" and "CHR ''['' \<notin> set (fmt_d j @ '']'')"
    using fmt_d_no_bracket [of i] fmt_d_no_bracket [of j] by simp_all
  from append_Cons_eq_last [OF this e1]
  have e2: "Namespace p @ '']-policy['' @ Name p @ '']-rule'' =
            Namespace q @ '']-policy['' @ Name q @ '']-rule''"
    and e3: "fmt_d i @ '']'' = fmt_d j @ '']''"
    by simp_all
  from e3 have ij: "i = j" by (simp add: fmt_d_inject)
  from e2 have "(Namespace p @ '']-policy['' @ Name p) @ '']-rule'' =
                (Namespace q @ '']-policy['' @ Name q) @ '']-rule''"
    by simp
  then have e4: "Namespace p @ '']-policy['' @ Name p = Namespace q @ '']-policy['' @ Name q"
    by (rule append_same_eq [THEN iffD1])
  from br have "Namespace p = Namespace q \<and> Name p = Name q"
  proof
    assume nb: "CHR '']'' \<notin> set (Namespace p) \<and> CHR '']'' \<notin> set (Namespace q)"
    from e4 have e5: "Namespace p @ CHR '']'' # (''-policy['' @ Name p) =
                  Namespace q @ CHR '']'' # (''-policy['' @ Name q)"
      by simp
    from nb have n: "CHR '']'' \<notin> set (Namespace p)" and n': "CHR '']'' \<notin> set (Namespace q)"
      by simp_all
    from append_Cons_eq_first [OF n n' e5]
    show ?thesis by simp
  next
    assume nb: "CHR ''['' \<notin> set (Name p) \<and> CHR ''['' \<notin> set (Name q)"
    from e4 have "(Namespace p @ '']-policy'') @ CHR ''['' # Name p =
                  (Namespace q @ '']-policy'') @ CHR ''['' # Name q"
      by simp
    with nb have "Namespace p @ '']-policy'' = Namespace q @ '']-policy'' \<and> Name p = Name q"
      by (blast dest: append_Cons_eq_last)
    then have "Namespace p = Namespace q" and "Name p = Name q"
      by (simp_all only: append_same_eq)
    then show ?thesis by simp
  qed
  with ij show ?thesis by simp
qed

lemma synthetic_name_same_policy: "synthetic_name p i = synthetic_name p j \<longleftrightarrow> i = j"
  by (auto simp add: synthetic_name_def dest: fmt_d_inject)

lemma synthetic_name_Rules_update: "synthetic_name (p\<lparr>Rules := rs\<rparr>) i = synthetic_name p i"
  by (simp add: synthetic_name_def)

lemma map_pair_name_policy:
  "map pair_name (map (Pair p) (enumerate n rs)) = map (synthetic_name p) [n..<n + length rs]"
  by (induction rs arbitrary: n) (simp_all add: pair_name_def upt_rec)

lemma pair_name_in_rule_pairs:
  "k \<in> pair_name ` set (rule_pairs ps) \<Longrightarrow> \<exists>q\<in>set ps. \<exists>j. k = synthetic_name q j"
  by (auto simp add: rule_pairs_def pair_name_def)

lemma distinct_pair_names:
  assumes "distinct (map policy_key ps)"
    and "(\<forall>p\<in>set ps. CHR '']'' \<notin> set (Namespace p)) \<or> (\<forall>p\<in>set ps. CHR ''['' \<notin> set (Name p))"
  shows "distinct (map pair_name (rule_pairs ps))"
  using assms
proof (induction ps)
  case Nil
  show ?case by (simp add: rule_pairs_def)
next
  case (Cons p ps)
  from Cons.prems have keys: "policy_key p \<notin> policy_key ` set ps" and dk: "distinct (map policy_key ps)"
    by simp_all
  from Cons.prems(2)
  have br: "(\<forall>p\<in>set ps. CHR '']'' \<notin> set (Namespace p)) \<or> (\<forall>p\<in>set ps. CHR ''['' \<notin> set (Name p))"
    by auto
  have own: "distinct (map (synthetic_name p) [0..<length (Rules p)])"
    by (simp add: distinct_map inj_on_def synthetic_name_same_policy)
  have rest: "distinct (map pair_name (rule_pairs ps))"
    using dk br by (rule Cons.IH)
  have disj: "synthetic_name p i \<notin> pair_name ` set (rule_pairs ps)" for i
  proof
    assume "synthetic_name p i \<in> pair_name ` set (rule_pairs ps)"
    from pair_name_in_rule_pairs [OF this]
    obtain q j where q: "q \<in> set ps" and eq: "synthetic_name p i = synthetic_name q j"
      by blast
    from Cons.prems(2) q
    have "(CHR '']'' \<notin> set (Namespace p) \<and> CHR '']'' \<notin> set (Namespace q)) \<or>
          (CHR ''['' \<notin> set (Name p) \<and> CHR ''['' \<notin> set (Name q))"
      by auto
    with eq have "policy_key p = policy_key q"
      by (auto simp add: policy_key_def dest: synthetic_name_inject)
    with q keys show False by blast
  qed
  show ?case
    using own rest disj
    by (auto simp add: rule_pairs_Cons map_pair_name_policy simp del: map_map)
qed

lemma distinct_pair_names_single: "distinct (map pair_name (rule_pairs [p]))"
  by (simp add: rule_pairs_Cons rule_pairs_def map_pair_name_policy distinct_map inj_on_def
      synthetic_name_same_policy del: map_map)

section \<open>Entries, log calls and the returned mapping\<close>

lemma map_fst_rule_entry:
  "map fst (concat (map (rule_entry X td t d) xs)) = map pair_name (filter (generates X td t d) xs)"
proof (induction xs)
  case Nil
  show ?case by simp
next
  case (Cons x xs)
  obtain p i rule where x: "x = (p, i, rule)" by (cases x)
  from Cons.IH show ?case
    by (simp add: x rule_entry_def generates_def pair_name_def split: sum.splits ptr.splits)
qed

lemma distinct_entries:
  "distinct (map pair_name (rule_pairs ps)) \<Longrightarrow> distinct (map fst (entries X td t d ps))"
  by (simp add: entries_def map_fst_rule_entry distinct_map_filter)

lemma Debugf_in_rule_log:
  "Debugf_generated k v \<in> set (rule_log X td t d pir) \<longleftrightarrow> (k, v) \<in> set (rule_entry X td t d pir)"
proof -
  obtain p i rule where pir: "pir = (p, i, rule)" by (cases pir)
  show ?thesis
    by (auto simp add: pir rule_log_def rule_entry_def split: sum.splits ptr.splits option.splits)
qed

lemma Debugf_in_log:
  "Debugf_generated k v \<in> set (snd (build X ps td t d)) \<longleftrightarrow> (k, v) \<in> set (entries X td t d ps)"
  by (auto simp add: build_eq entries_def Debugf_in_rule_log rule_pairs_def)

lemma policies_of_build:
  "policies_of (fst (build X ps td t d)) = map_of (rev (entries X td t d ps))"
  by (auto simp add: build_eq policies_of_def entries_def rule_pairs_def)

lemma rule_outcome_generated:
  "authzmodel_New X r = Inr m \<Longrightarrow> Generate X (MigrateTrustDomain X m td) t d = Inr (Ptr g) \<Longrightarrow>
     rule_outcome X td t d (Ptr r) = Inr (Ptr g)"
  by (simp add: rule_outcome_def)

lemma generated_in_entries:
  assumes "p \<in> set ps" and "i < length (Rules p)" and "Rules p ! i = Ptr r"
    and "authzmodel_New X r = Inr m" and "Generate X (MigrateTrustDomain X m td) t d = Inr (Ptr g)"
  shows "(synthetic_name p i, Ptr g) \<in> set (entries X td t d ps)"
proof -
  from assms(1-3) have "(p, i, Ptr r) \<in> set (rule_pairs ps)"
    by (simp add: in_rule_pairs)
  moreover from assms(4,5) have "rule_entry X td t d (p, i, Ptr r) = [(synthetic_name p i, Ptr g)]"
    by (simp add: rule_entry_def rule_outcome_generated)
  ultimately show ?thesis
    by (force simp add: entries_def)
qed

lemma rule_outcome_cong:
  assumes "\<forall>r. rule = Ptr r \<longrightarrow> authzmodel_New X r = authzmodel_New Y r \<and>
             (\<forall>m. authzmodel_New X r = Inr m \<longrightarrow>
                Generate X (MigrateTrustDomain X m td) t d = Generate Y (MigrateTrustDomain Y m td) t d)"
  shows "rule_outcome X td t d rule = rule_outcome Y td t d rule"
proof (cases rule)
  case NilPtr
  then show ?thesis by (simp add: rule_outcome_def)
next
  case (Ptr r)
  with assms have n: "authzmodel_New X r = authzmodel_New Y r"
    and g: "\<And>m. authzmodel_New X r = Inr m \<Longrightarrow>
                Generate X (MigrateTrustDomain X m td) t d = Generate Y (MigrateTrustDomain Y m td) t d"
    by simp_all
  show ?thesis
  proof (cases "authzmodel_New X r")
    case (Inl e)
    with n have "authzmodel_New Y r = Inl e" by simp
    with Inl Ptr show ?thesis by (simp add: rule_outcome_def)
  next
    case (Inr m)
    with n have "authzmodel_New Y r = Inr m" by simp
    with Inr g [OF Inr] Ptr show ?thesis by (simp add: rule_outcome_def)
  qed
qed

lemma build_cong:
  assumes "\<forall>p\<in>set ps. \<forall>rule\<in>set (Rules p). rule_outcome X td t d rule = rule_outcome Y td t d rule"
  shows "build X ps td t d = build Y ps td t d"
proof -
  have "rule_entry X td t d pir = rule_entry Y td t d pir \<and> rule_log X td t d pir = rule_log Y td t d pir"
    if "pir \<in> set (rule_pairs ps)" for pir
  proof -
    obtain p i rule where pir: "pir = (p, i, rule)" by (cases pir)
    from that pir have "p \<in> set ps" and "rule \<in> set (Rules p)"
      by (simp_all add: in_rule_pairs)
    with assms have "rule_outcome X td t d rule = rule_outcome Y td t d rule" by blast
    then show ?thesis by (simp add: pir rule_entry_def rule_log_def)
  qed
  then have e: "map (rule_entry X td t d) (rule_pairs ps) = map (rule_entry Y td t d) (rule_pairs ps)"
    and l: "map (rule_log X td t d) (rule_pairs ps) = map (rule_log Y td t d) (rule_pairs ps)"
    by simp_all
  show ?thesis by (simp only: build_eq entries_def e l)
qed

text \<open>One rule of one policy, singled out of a run.\<close>

lemma rule_entry_Rules_update:
  "rule_entry X td t d (p\<lparr>Rules := rs\<rparr>, i, rule) = rule_entry X td t d (p, i, rule)"
  by (simp add: rule_entry_def synthetic_name_Rules_update split: sum.splits ptr.splits)

lemma rule_pairs_append: "rule_pairs (ps @ qs) = rule_pairs ps @ rule_pairs qs"
  by (simp add: rule_pairs_def)

lemma entries_append: "entries X td t d (ps @ qs) = entries X td t d ps @ entries X td t d qs"
  by (simp add: entries_def rule_pairs_append)

lemma entries_Cons: "entries X td t d (p # ps) = entries X td t d [p] @ entries X td t d ps"
  using entries_append [of X td t d "[p]" ps] by simp

lemma entries_single_split:
  "entries X td t d [p\<lparr>Rules := rs1 @ rule # rs2\<rparr>] =
     concat (map (\<lambda>ir. rule_entry X td t d (p, ir)) (enumerate 0 rs1)) @
     rule_entry X td t d (p, length rs1, rule) @
     concat (map (\<lambda>ir. rule_entry X td t d (p, ir)) (enumerate (Suc (length rs1)) rs2))"
proof -
  have "map (rule_entry X td t d) (map (Pair (p\<lparr>Rules := rs\<rparr>)) irs) =
        map (\<lambda>ir. rule_entry X td t d (p, ir)) irs" for rs irs
    by (induction irs) (auto simp add: rule_entry_Rules_update)
  then show ?thesis
    by (simp add: entries_def rule_pairs_def enumerate_append_eq rule_entry_Rules_update
        del: map_map)
qed

lemma map_of_rule_entry_other:
  "k \<noteq> synthetic_name p i \<Longrightarrow> map_of (rev (rule_entry X td t d (p, i, rule))) k = None"
  by (simp add: rule_entry_def split: sum.splits ptr.splits)

lemma policies_split:
  "policies_of (fst (build X (pre @ p\<lparr>Rules := rs1 @ rule # rs2\<rparr> # post) td t d)) =
     map_of (rev (entries X td t d pre)) ++
     map_of (rev (concat (map (\<lambda>ir. rule_entry X td t d (p, ir)) (enumerate 0 rs1)))) ++
     map_of (rev (rule_entry X td t d (p, length rs1, rule))) ++
     map_of (rev (concat (map (\<lambda>ir. rule_entry X td t d (p, ir)) (enumerate (Suc (length rs1)) rs2)))) ++
     map_of (rev (entries X td t d post))"
  by (simp add: policies_of_build entries_append entries_Cons [of X td t d _ post]
      entries_single_split)

lemma other_keys_unaffected:
  assumes "k \<noteq> synthetic_name p (length rs1)"
  shows "policies_of (fst (build X (pre @ p\<lparr>Rules := rs1 @ rule' # rs2\<rparr> # post) td t d)) k =
         policies_of (fst (build X (pre @ p\<lparr>Rules := rs1 @ rule # rs2\<rparr> # post) td t d)) k"
  using map_of_rule_entry_other [OF assms, of X td t d rule]
    map_of_rule_entry_other [OF assms, of X td t d rule']
  by (simp add: policies_split map_add_def split: option.splits)

lemma failing_rule_like_nil:
  assumes "rule_fails X td t d rule'"
  shows "fst (build X (pre @ p\<lparr>Rules := rs1 @ rule' # rs2\<rparr> # post) td t d) =
         fst (build X (pre @ p\<lparr>Rules := rs1 @ NilPtr # rs2\<rparr> # post) td t d)"
proof -
  have "rule_fails X td t d NilPtr" by (simp add: rule_fails_def)
  with assms have "entries X td t d (pre @ p\<lparr>Rules := rs1 @ rule' # rs2\<rparr> # post) =
    entries X td t d (pre @ p\<lparr>Rules := rs1 @ NilPtr # rs2\<rparr> # post)"
    by (simp add: entries_append entries_Cons [of X td t d _ post] entries_single_split
        rule_fails_entry)
  then show ?thesis by (simp add: build_eq)
qed

lemma failing_step_keeps_rules:
  "rule_fails X td t d rule \<Longrightarrow> rules (process_rule X td t d p i rule s) = rules s"
  by (simp add: process_rule_eq rule_fails_entry)

lemma BuildHTTP_no_nil: "NilPtr \<notin> set (fst (BuildHTTP X b)) \<and> length (fst (BuildHTTP X b)) \<le> 2"
  by (simp add: BuildHTTP_def Let_def split_beta createHTTPFilter_def split: ptr.splits)

lemma BuildTCP_no_nil: "NilPtr \<notin> set (fst (BuildTCP X b)) \<and> length (fst (BuildTCP X b)) \<le> 2"
  by (simp add: BuildTCP_def Let_def split_beta createTCPFilter_def split: ptr.splits)

section \<open>Properties of the aggregator and the builder\<close>

text \<open>
  C1. For every bundle and both flags, \<open>build\<close> on the empty policy sequence returns
  nil; on a non-empty sequence it returns a configuration that is not nil and holds a
  rule set; and when every rule of every policy is nil or fails construction or
  generation, that rule set's policies mapping is empty (the result is still not nil).
\<close>

theorem build_nil_iff_no_policies:
  "fst (build X [] td t d) = NilPtr \<and>
   (ps \<noteq> [] \<longrightarrow> (\<exists>rs. fst (build X ps td t d) = Ptr \<lparr>http_Rules = Ptr rs\<rparr>)) \<and>
   (ps \<noteq> [] \<and> (\<forall>p\<in>set ps. \<forall>rule\<in>set (Rules p). rule_fails X td t d rule) \<longrightarrow>
      (\<exists>rs. fst (build X ps td t d) = Ptr \<lparr>http_Rules = Ptr rs\<rparr> \<and> Policies rs = Map.empty))"
  by (simp add: build_eq entries_all_fail)

theorem build_nil_iff_no_policies_witness:
  "[example_policy ''ns1'' ''p1'' [NilPtr, Ptr 0, Ptr 1]] \<noteq> [] \<and>
   list_all (\<lambda>p. list_all (rule_fails example_env () True False) (Rules p))
     [example_policy ''ns1'' ''p1'' [NilPtr, Ptr 0, Ptr 1]] \<and>
   (\<exists>rs. fst (build example_env [example_policy ''ns1'' ''p1'' [NilPtr, Ptr 0, Ptr 1]] () True False) =
            Ptr \<lparr>http_Rules = Ptr rs\<rparr> \<and> Policies rs = Map.empty)"
  using build_nil_iff_no_policies [of example_env "()" True False
      "[example_policy ''ns1'' ''p1'' [NilPtr, Ptr 0, Ptr 1]]"]
  by (simp add: example_env_def example_policy_def rule_fails_def)

text \<open>
  C2. For every builder, \<open>BuildHTTP\<close> (and likewise \<open>BuildTCP\<close>) returns the filter of
  the deny aggregation, if that aggregation is not nil, followed by the filter of the
  allow aggregation, if that one is not nil. So the length of the sequence is the number
  of aggregations that are not nil (zero, one or two), and when both are not nil the
  deny filter stands at the first position and the allow filter at the second.
\<close>

theorem BuildHTTP_BuildTCP_deny_before_allow:
  "fst (BuildHTTP X b) =
     (case fst (build X (denyPolicies b) (trustDomainBundle b) False True) of
        NilPtr \<Rightarrow> [] | Ptr dc \<Rightarrow> [createHTTPFilter X (Ptr dc)]) @
     (case fst (build X (allowPolicies b) (trustDomainBundle b) False False) of
        NilPtr \<Rightarrow> [] | Ptr ac \<Rightarrow> [createHTTPFilter X (Ptr ac)]) \<and>
   fst (BuildTCP X b) =
     (case fst (build X (denyPolicies b) (trustDomainBundle b) True True) of
        NilPtr \<Rightarrow> [] | Ptr dc \<Rightarrow> [createTCPFilter X (Ptr dc)]) @
     (case fst (build X (allowPolicies b) (trustDomainBundle b) True False) of
        NilPtr \<Rightarrow> [] | Ptr ac \<Rightarrow> [createTCPFilter X (Ptr ac)]) \<and>
   length (fst (BuildHTTP X b)) =
     (if fst (build X (denyPolicies b) (trustDomainBundle b) False True) = NilPtr then 0 else 1) +
     (if fst (build X (allowPolicies b) (trustDomainBundle b) False False) = NilPtr then 0 else 1) \<and>
   length (fst (BuildTCP X b)) =
     (if fst (build X (denyPolicies b) (trustDomainBundle b) True True) = NilPtr then 0 else 1) +
     (if fst (build X (allowPolicies b) (trustDomainBundle b) True False) = NilPtr then 0 else 1) \<and>
   (\<forall>dc ac. fst (build X (denyPolicies b) (trustDomainBundle b) False True) = Ptr dc \<and>
            fst (build X (allowPolicies b) (trustDomainBundle b) False False) = Ptr ac \<longrightarrow>
      fst (BuildHTTP X b) = [createHTTPFilter X (Ptr dc), createHTTPFilter X (Ptr ac)]) \<and>
   (\<forall>dc ac. fst (build X (denyPolicies b) (trustDomainBundle b) True True) = Ptr dc \<and>
            fst (build X (allowPolicies b) (trustDomainBundle b) True False) = Ptr ac \<longrightarrow>
      fst (BuildTCP X b) = [createTCPFilter X (Ptr dc), createTCPFilter X (Ptr ac)])"
  by (simp add: BuildHTTP_def BuildTCP_def Let_def split_beta split: ptr.splits)

theorem BuildHTTP_BuildTCP_deny_before_allow_witness:
  "fst (BuildHTTP example_env example_builder) =
     [Ptr \<lparr>http_Name = ''envoy.filters.http.rbac'',
           http_TypedConfig = HTTP_RBAC \<lparr>http_Rules = Ptr \<lparr>Action = RBAC_DENY,
             Policies = [''ns[ns1]-policy[deny1]-rule[0]'' \<mapsto> Ptr 3]\<rparr>\<rparr>\<rparr>,
      Ptr \<lparr>http_Name = ''envoy.filters.http.rbac'',
           http_TypedConfig = HTTP_RBAC \<lparr>http_Rules = Ptr \<lparr>Action = RBAC_ALLOW,
             Policies = [''ns[ns1]-policy[allow1]-rule[0]'' \<mapsto> Ptr 4]\<rparr>\<rparr>\<rparr>] \<and>
   fst (BuildTCP example_env example_builder) =
     [Ptr \<lparr>tcp_Name = ''envoy.filters.network.rbac'',
           tcp_TypedConfig = TCP_RBAC \<lparr>tcp_Rules = Ptr \<lparr>Action = RBAC_DENY,
             Policies = [''ns[ns1]-policy[deny1]-rule[0]'' \<mapsto> Ptr 3]\<rparr>, StatPrefix = ''tcp.''\<rparr>\<rparr>,
      Ptr \<lparr>tcp_Name = ''envoy.filters.network.rbac'',
           tcp_TypedConfig = TCP_RBAC \<lparr>tcp_Rules = Ptr \<lparr>Action = RBAC_ALLOW,
             Policies = [''ns[ns1]-policy[allow1]-rule[0]'' \<mapsto> Ptr 4]\<rparr>, StatPrefix = ''tcp.''\<rparr>\<rparr>]"
proof -
  let ?dc = "\<lparr>http_Rules = Ptr \<lparr>Action = RBAC_DENY,
             Policies = [''ns[ns1]-policy[deny1]-rule[0]'' \<mapsto> Ptr (3::nat)]\<rparr>\<rparr>"
  let ?ac = "\<lparr>http_Rules = Ptr \<lparr>Action = RBAC_ALLOW,
             Policies = [''ns[ns1]-policy[allow1]-rule[0]'' \<mapsto> Ptr (4::nat)]\<rparr>\<rparr>"
  from BuildHTTP_BuildTCP_deny_before_allow [of example_env example_builder]
    example_build_deny [of False] example_build_allow [of False]
  have http: "fst (BuildHTTP example_env example_builder) =
          [createHTTPFilter example_env (Ptr ?dc), createHTTPFilter example_env (Ptr ?ac)]"
    by blast
  from BuildHTTP_BuildTCP_deny_before_allow [of example_env example_builder]
    example_build_deny [of True] example_build_allow [of True]
  have tcp: "fst (BuildTCP example_env example_builder) =
          [createTCPFilter example_env (Ptr ?dc), createTCPFilter example_env (Ptr ?ac)]"
    by blast
  from http tcp show ?thesis
    by (simp add: createHTTPFilter_def createTCPFilter_def example_env_def)
qed

text \<open>
  C3. \<open>New\<close> returns nil exactly when the policy selector yields an empty deny list and
  an empty allow list for the namespace and the workload labels; when at least one of
  the two lists is not empty it returns a builder that holds the trust-domain bundle
  and both lists.
\<close>

theorem New_nil_iff_no_policies:
  "(New L td w ns repo = NilPtr \<longleftrightarrow> fst (L repo ns w) = [] \<and> snd (L repo ns w) = []) \<and>
   (fst (L repo ns w) \<noteq> [] \<or> snd (L repo ns w) \<noteq> [] \<longrightarrow>
      New L td w ns repo =
        Ptr \<lparr>trustDomainBundle = td, denyPolicies = fst (L repo ns w),
             allowPolicies = snd (L repo ns w)\<rparr>)"
  by (simp add: New_def split_beta)

theorem New_nil_iff_no_policies_witness:
  "New example_selector () () ''ns1'' ([], [example_policy ''ns1'' ''p1'' [Ptr 3]]) =
     Ptr \<lparr>trustDomainBundle = (), denyPolicies = [],
          allowPolicies = [example_policy ''ns1'' ''p1'' [Ptr 3]]\<rparr> \<and>
   New example_selector () () ''ns2'' ([], [example_policy ''ns1'' ''p1'' [Ptr 3]]) = NilPtr"
  using New_nil_iff_no_policies [of example_selector "()" "()" "''ns1''"
      "([], [example_policy ''ns1'' ''p1'' [Ptr 3]])"]
    New_nil_iff_no_policies [of example_selector "()" "()" "''ns2''"
      "([], [example_policy ''ns1'' ''p1'' [Ptr 3]])"]
  by (simp add: example_selector_def example_policy_def)

text \<open>
  C4, as amended. Let the (namespace, name) pairs of the input policies be pairwise
  distinct, and let no namespace contain a closing bracket or no policy name contain an
  opening bracket. Then any two distinct (policy, index) pairs have distinct synthetic
  names, the names of the triples of one run are pairwise distinct, and no insertion
  overwrites an earlier one: every generated policy that the log records as inserted
  is the value stored under its name in the returned rule set.
\<close>

theorem synthetic_names_unique:
  fixes ps :: "'r AuthorizationPolicyConfig list"
  assumes "distinct (map policy_key ps)"
    and "(\<forall>p\<in>set ps. CHR '']'' \<notin> set (Namespace p)) \<or> (\<forall>p\<in>set ps. CHR ''['' \<notin> set (Name p))"
  shows "(\<forall>p\<in>set ps. \<forall>q\<in>set ps. \<forall>i j. (p, i) \<noteq> (q, j) \<longrightarrow> synthetic_name p i \<noteq> synthetic_name q j) \<and>
         distinct (map pair_name (rule_pairs ps)) \<and>
         (\<forall>name g. Debugf_generated name g \<in> set (snd (build X ps td t d)) \<longrightarrow>
            policies_of (fst (build X ps td t d)) name = Some g)"
proof (intro conjI ballI allI impI)
  fix p q :: "'r AuthorizationPolicyConfig" and i j :: nat
  assume p: "p \<in> set ps" and q: "q \<in> set ps" and ne: "(p, i) \<noteq> (q, j)"
  show "synthetic_name p i \<noteq> synthetic_name q j"
  proof
    assume eq: "synthetic_name p i = synthetic_name q j"
    from assms(2) p q
    have "(CHR '']'' \<notin> set (Namespace p) \<and> CHR '']'' \<notin> set (Namespace q)) \<or>
          (CHR ''['' \<notin> set (Name p) \<and> CHR ''['' \<notin> set (Name q))"
      by auto
    with eq have k: "policy_key p = policy_key q" and ij: "i = j"
      by (auto simp add: policy_key_def dest: synthetic_name_inject)
    from assms(1) have "inj_on policy_key (set ps)" by (simp add: distinct_map)
    with k p q have "p = q" by (auto dest: inj_onD)
    with ij ne show False by simp
  qed
next
  show d: "distinct (map pair_name (rule_pairs ps))"
    using assms by (rule distinct_pair_names)
  fix name g
  assume "Debugf_generated name g \<in> set (snd (build X ps td t d))"
  then have "(name, g) \<in> set (rev (entries X td t d ps))"
    by (simp add: Debugf_in_log)
  moreover from d have "distinct (map fst (rev (entries X td t d ps)))"
    by (simp add: distinct_entries rev_map [symmetric])
  ultimately have "map_of (rev (entries X td t d ps)) name = Some g"
    by (simp only: map_of_is_SomeI)
  then show "policies_of (fst (build X ps td t d)) name = Some g"
    by (simp add: policies_of_build)
qed

theorem synthetic_names_unique_witness:
  "distinct (map policy_key
     [example_policy ''ns1'' ''p1'' [Ptr 3, Ptr 4], example_policy ''ns1'' ''p2'' [Ptr 5]]) \<and>
   list_all (\<lambda>p. CHR '']'' \<notin> set (Namespace p))
     [example_policy ''ns1'' ''p1'' [Ptr 3, Ptr 4], example_policy ''ns1'' ''p2'' [Ptr 5]] \<and>
   synthetic_name (example_policy ''ns1'' ''p1'' [Ptr 3, Ptr 4]) 1 \<noteq>
     synthetic_name (example_policy ''ns1'' ''p2'' [Ptr 5]) 0 \<and>
   policies_of (fst (build example_env
     [example_policy ''ns1'' ''p1'' [Ptr 3, Ptr 4], example_policy ''ns1'' ''p2'' [Ptr 5]] () False False))
     ''ns[ns1]-policy[p1]-rule[0]'' = Some (Ptr 3)"
proof -
  let ?ps = "[example_policy ''ns1'' ''p1'' [Ptr 3, Ptr 4], example_policy ''ns1'' ''p2'' [Ptr 5]]"
  have k: "distinct (map policy_key ?ps)"
    by (simp add: policy_key_def example_policy_def)
  have b: "(\<forall>p\<in>set ?ps. CHR '']'' \<notin> set (Namespace p)) \<or> (\<forall>p\<in>set ?ps. CHR ''['' \<notin> set (Name p))"
    by (simp add: example_policy_def)
  have l: "Debugf_generated ''ns[ns1]-policy[p1]-rule[0]'' (Ptr 3) \<in>
             set (snd (build example_env ?ps () False False))"
    by (simp add: build_eval example_env_def example_policy_def)
  have ne: "(example_policy ''ns1'' ''p1'' [Ptr 3, Ptr 4], 1::nat) \<noteq> (example_policy ''ns1'' ''p2'' [Ptr 5], 0)"
    by simp
  note u = synthetic_names_unique [OF k b, of example_env "()" False False]
  from u ne have "synthetic_name (example_policy ''ns1'' ''p1'' [Ptr 3, Ptr 4]) 1 \<noteq>
     synthetic_name (example_policy ''ns1'' ''p2'' [Ptr 5]) 0"
    by simp
  moreover from u l have "policies_of (fst (build example_env ?ps () False False))
     ''ns[ns1]-policy[p1]-rule[0]'' = Some (Ptr 3)"
    by blast
  moreover have "list_all (\<lambda>p. CHR '']'' \<notin> set (Namespace p)) ?ps"
    by (simp add: example_policy_def)
  ultimately show ?thesis using k by simp
qed

text \<open>
  Without the condition on the brackets the names are not unique. The two policies
  below differ in namespace and in name, and their first rules get the same synthetic
  name; the log records two insertions under it and the returned mapping holds the
  second one only.
\<close>

theorem synthetic_names_collide:
  "distinct (map policy_key
     [example_policy ''a]-policy[b'' ''c'' [Ptr 3], example_policy ''a'' ''b]-policy[c'' [Ptr 4]]) \<and>
   (example_policy ''a]-policy[b'' ''c'' [Ptr 3], 0::nat) \<noteq> (example_policy ''a'' ''b]-policy[c'' [Ptr 4], 0) \<and>
   synthetic_name (example_policy ''a]-policy[b'' ''c'' [Ptr 3]) 0 =
     synthetic_name (example_policy ''a'' ''b]-policy[c'' [Ptr 4]) 0 \<and>
   build example_env
     [example_policy ''a]-policy[b'' ''c'' [Ptr 3], example_policy ''a'' ''b]-policy[c'' [Ptr 4]]
     () False False =
     (Ptr \<lparr>http_Rules = Ptr \<lparr>Action = RBAC_ALLOW,
        Policies = [''ns[a]-policy[b]-policy[c]-rule[0]'' \<mapsto> Ptr 4]\<rparr>\<rparr>,
      [Debugf_generated ''ns[a]-policy[b]-policy[c]-rule[0]'' (Ptr 3),
       Debugf_generated ''ns[a]-policy[b]-policy[c]-rule[0]'' (Ptr 4)])"
  by (simp add: build_eval policy_key_def example_env_def example_policy_def)

text \<open>
  C5. A per-rule failure (a nil rule, a failed construction, a failed generation) is
  isolated. The step that processes a failing rule leaves the rule set as it was. In a
  run, a failing rule gives the same result as a nil rule at its place, and whatever
  the rule at one place of one policy is, the entries under all other names are the
  same. \<open>build\<close>, \<open>BuildHTTP\<close> and \<open>BuildTCP\<close> are total and return a value, never an
  error: nil or a configuration with a rule set, and a sequence of at most two filters,
  none of them nil.
\<close>

theorem rule_failures_isolated:
  "(rule_fails X td t d rule \<longrightarrow> rules (process_rule X td t d p i rule s) = rules s) \<and>
   (rule_fails X td t d rule' \<longrightarrow>
      fst (build X (pre @ p\<lparr>Rules := rs1 @ rule' # rs2\<rparr> # post) td t d) =
      fst (build X (pre @ p\<lparr>Rules := rs1 @ NilPtr # rs2\<rparr> # post) td t d)) \<and>
   (k \<noteq> synthetic_name p (length rs1) \<longrightarrow>
      policies_of (fst (build X (pre @ p\<lparr>Rules := rs1 @ rule' # rs2\<rparr> # post) td t d)) k =
      policies_of (fst (build X (pre @ p\<lparr>Rules := rs1 @ rule # rs2\<rparr> # post) td t d)) k) \<and>
   (fst (build X ps td t d) = NilPtr \<or> (\<exists>rs. fst (build X ps td t d) = Ptr \<lparr>http_Rules = Ptr rs\<rparr>)) \<and>
   NilPtr \<notin> set (fst (BuildHTTP X b)) \<and> length (fst (BuildHTTP X b)) \<le> 2 \<and>
   NilPtr \<notin> set (fst (BuildTCP X b)) \<and> length (fst (BuildTCP X b)) \<le> 2"
proof (intro conjI impI)
  show "fst (build X ps td t d) = NilPtr \<or> (\<exists>rs. fst (build X ps td t d) = Ptr \<lparr>http_Rules = Ptr rs\<rparr>)"
    by (simp add: build_eq)
qed (simp_all add: failing_step_keeps_rules failing_rule_like_nil other_keys_unaffected
    BuildHTTP_no_nil BuildTCP_no_nil)

theorem rule_failures_isolated_witness:
  "rules (process_rule example_env () False False (example_policy ''ns1'' ''p1'' [Ptr 0]) 0 (Ptr 0)
      \<lparr>rules = \<lparr>Action = RBAC_ALLOW, Policies = Map.empty\<rparr>, logged = []\<rparr>) =
     \<lparr>Action = RBAC_ALLOW, Policies = Map.empty\<rparr> \<and>
   fst (build example_env
      [example_policy ''ns1'' ''p1'' [Ptr 3, Ptr 1, Ptr 4], example_policy ''ns1'' ''p2'' [Ptr 5]]
      () False False) =
   fst (build example_env
      [example_policy ''ns1'' ''p1'' [Ptr 3, NilPtr, Ptr 4], example_policy ''ns1'' ''p2'' [Ptr 5]]
      () False False) \<and>
   policies_of (fst (build example_env
      [example_policy ''ns1'' ''p1'' [Ptr 3, Ptr 0, Ptr 4], example_policy ''ns1'' ''p2'' [Ptr 5]]
      () False False)) ''ns[ns1]-policy[p1]-rule[0]'' =
   policies_of (fst (build example_env
      [example_policy ''ns1'' ''p1'' [Ptr 3, Ptr 9, Ptr 4], example_policy ''ns1'' ''p2'' [Ptr 5]]
      () False False)) ''ns[ns1]-policy[p1]-rule[0]''"
proof -
  let ?p = "example_policy ''ns1'' ''p1'' []"
  let ?post = "[example_policy ''ns1'' ''p2'' [Ptr 5]]"
  let ?s = "\<lparr>rules = \<lparr>Action = RBAC_ALLOW, Policies = Map.empty\<rparr>,
             logged = ([] :: (string, nat) log_call list)\<rparr>"
  have f0: "rule_fails example_env () False False (Ptr 0)"
    and f1: "rule_fails example_env () False False (Ptr 1)"
    by (simp_all add: rule_fails_def example_env_def)
  have ne: "''ns[ns1]-policy[p1]-rule[0]'' \<noteq> synthetic_name ?p (length [Ptr (3::nat)])"
    by (simp add: synthetic_name_def example_policy_def fmt_d_1)
  from f0 rule_failures_isolated [where X = example_env and td = "()" and t = False and d = False
      and rule = "Ptr 0" and p = "example_policy ''ns1'' ''p1'' [Ptr 0]" and i = 0 and s = ?s]
  have c1: "rules (process_rule example_env () False False (example_policy ''ns1'' ''p1'' [Ptr 0]) 0
      (Ptr 0) ?s) = rules ?s"
    by blast
  from f1 rule_failures_isolated [where X = example_env and td = "()" and t = False and d = False
      and rule' = "Ptr 1" and p = ?p and pre = "[]" and ?rs1.0 = "[Ptr 3]" and ?rs2.0 = "[Ptr 4]"
      and post = ?post]
  have c2: "fst (build example_env ([] @ ?p\<lparr>Rules := [Ptr 3] @ Ptr 1 # [Ptr 4]\<rparr> # ?post) () False False) =
            fst (build example_env ([] @ ?p\<lparr>Rules := [Ptr 3] @ NilPtr # [Ptr 4]\<rparr> # ?post) () False False)"
    by blast
  from ne rule_failures_isolated [where X = example_env and td = "()" and t = False and d = False
      and rule' = "Ptr 0" and rule = "Ptr 9" and p = ?p and pre = "[]" and ?rs1.0 = "[Ptr 3]"
      and ?rs2.0 = "[Ptr 4]" and post = ?post and k = "''ns[ns1]-policy[p1]-rule[0]''"]
  have c3: "policies_of (fst (build example_env ([] @ ?p\<lparr>Rules := [Ptr 3] @ Ptr 0 # [Ptr 4]\<rparr> # ?post)
              () False False)) ''ns[ns1]-policy[p1]-rule[0]'' =
            policies_of (fst (build example_env ([] @ ?p\<lparr>Rules := [Ptr 3] @ Ptr 9 # [Ptr 4]\<rparr> # ?post)
              () False False)) ''ns[ns1]-policy[p1]-rule[0]''"
    by blast
  from c1 c2 c3 show ?thesis
    by (simp add: example_policy_def)
qed

text \<open>
  C6. The synthetic name of the rule at zero-based index \<open>i\<close> of a policy is the string
  \<open>ns[\<close> namespace \<open>]-policy[\<close> name \<open>]-rule[\<close> \<open>i\<close> in decimal \<open>]\<close> (the index is
  printed as its decimal numeral: digits only, no leading zero, of value \<open>i\<close>), and a
  rule that generates is stored under that string. In particular a builder with no deny policy
  and one allow policy with one rule that generates for \<open>forTCP = false\<close> and
  \<open>forDeny = false\<close> yields, by \<open>BuildHTTP\<close>, exactly one filter, whose rule set maps
  the name with index 0 to the generated policy and nothing else.
\<close>

theorem synthetic_name_format:
  "fmt_d i \<noteq> [] \<and> list_all (\<lambda>c. 48 \<le> (of_char c :: nat) \<and> (of_char c :: nat) \<le> 57) (fmt_d i) \<and>
   (i \<noteq> 0 \<longrightarrow> hd (fmt_d i) \<noteq> CHR ''0'') \<and> dec_val (fmt_d i) = i \<and>
   synthetic_name p i =
     ''ns['' @ Namespace p @ '']-policy['' @ Name p @ '']-rule['' @ fmt_d i @ '']'' \<and>
   (i < length (Rules p) \<and> Rules p ! i = Ptr r \<and> authzmodel_New X r = Inr m \<and>
    Generate X (MigrateTrustDomain X m td) t d = Inr (Ptr g) \<longrightarrow>
      policies_of (fst (build X [p] td t d))
        (''ns['' @ Namespace p @ '']-policy['' @ Name p @ '']-rule['' @ fmt_d i @ '']'') =
      Some (Ptr g)) \<and>
   (denyPolicies b = [] \<and> allowPolicies b = [p] \<and> Rules p = [Ptr r] \<and> authzmodel_New X r = Inr m \<and>
    Generate X (MigrateTrustDomain X m (trustDomainBundle b)) False False = Inr (Ptr g) \<longrightarrow>
      fst (BuildHTTP X b) =
        [Ptr \<lparr>http_Name = RBACHTTPFilterName X,
              http_TypedConfig = MessageToAny X (HTTP_RBAC \<lparr>http_Rules = Ptr \<lparr>Action = RBAC_ALLOW,
                Policies = [''ns['' @ Namespace p @ '']-policy['' @ Name p @ '']-rule[0]'' \<mapsto> Ptr g]\<rparr>\<rparr>)\<rparr>])"
proof (intro conjI impI)
  show "fmt_d i \<noteq> []" by (rule fmt_d_not_Nil)
  show "list_all (\<lambda>c. 48 \<le> (of_char c :: nat) \<and> (of_char c :: nat) \<le> 57) (fmt_d i)"
    by (rule fmt_d_digits)
  show "dec_val (fmt_d i) = i" by (rule dec_val_fmt_d)
  show "synthetic_name p i =
     ''ns['' @ Namespace p @ '']-policy['' @ Name p @ '']-rule['' @ fmt_d i @ '']''"
    by (simp add: synthetic_name_def)
next
  assume "i \<noteq> 0"
  then show "hd (fmt_d i) \<noteq> CHR ''0''" by (rule fmt_d_no_leading_zero)
next
  assume a: "i < length (Rules p) \<and> Rules p ! i = Ptr r \<and> authzmodel_New X r = Inr m \<and>
    Generate X (MigrateTrustDomain X m td) t d = Inr (Ptr g)"
  then have "(synthetic_name p i, Ptr g) \<in> set (rev (entries X td t d [p]))"
    by (simp add: generated_in_entries [where m = m and r = r])
  moreover have "distinct (map fst (rev (entries X td t d [p])))"
    by (simp add: distinct_entries distinct_pair_names_single rev_map [symmetric])
  ultimately have "map_of (rev (entries X td t d [p])) (synthetic_name p i) = Some (Ptr g)"
    by (simp only: map_of_is_SomeI)
  then show "policies_of (fst (build X [p] td t d))
        (''ns['' @ Namespace p @ '']-policy['' @ Name p @ '']-rule['' @ fmt_d i @ '']'') =
      Some (Ptr g)"
    by (simp add: policies_of_build synthetic_name_def)
next
  assume "denyPolicies b = [] \<and> allowPolicies b = [p] \<and> Rules p = [Ptr r] \<and> authzmodel_New X r = Inr m \<and>
    Generate X (MigrateTrustDomain X m (trustDomainBundle b)) False False = Inr (Ptr g)"
  then show "fst (BuildHTTP X b) =
        [Ptr \<lparr>http_Name = RBACHTTPFilterName X,
              http_TypedConfig = MessageToAny X (HTTP_RBAC \<lparr>http_Rules = Ptr \<lparr>Action = RBAC_ALLOW,
                Policies = [''ns['' @ Namespace p @ '']-policy['' @ Name p @ '']-rule[0]'' \<mapsto> Ptr g]\<rparr>\<rparr>)\<rparr>]"
    by (simp add: BuildHTTP_def createHTTPFilter_def build_eval)
qed

theorem synthetic_name_format_witness:
  "fst (BuildHTTP example_env
     \<lparr>trustDomainBundle = (), denyPolicies = [],
      allowPolicies = [example_policy ''ns1'' ''p1'' [Ptr 3]]\<rparr>) =
     [Ptr \<lparr>http_Name = ''envoy.filters.http.rbac'',
           http_TypedConfig = HTTP_RBAC \<lparr>http_Rules = Ptr \<lparr>Action = RBAC_ALLOW,
             Policies = [''ns[ns1]-policy[p1]-rule[0]'' \<mapsto> Ptr 3]\<rparr>\<rparr>\<rparr>] \<and>
   policies_of (fst (build example_env [example_policy ''ns1'' ''p1'' [Ptr 3, Ptr 4]] () False False))
     ''ns[ns1]-policy[p1]-rule[1]'' = Some (Ptr 4) \<and>
   hd (fmt_d 1) \<noteq> CHR ''0''"
  using synthetic_name_format [of 1 "example_policy ''ns1'' ''p1'' [Ptr 3, Ptr 4]" 4 example_env 4 "()"
      False False 4]
    synthetic_name_format [of 0 "example_policy ''ns1'' ''p1'' [Ptr 3]" 3 example_env 3 "()"
      False False 3
      "\<lparr>trustDomainBundle = (), denyPolicies = [], allowPolicies = [example_policy ''ns1'' ''p1'' [Ptr 3]]\<rparr>"]
  by (simp add: example_env_def example_policy_def fmt_d_1)

text \<open>
  C7. A nil rule is skipped: its step only records the diagnostic, and the run goes
  on. For a policy with the rules \<open>[nil, rule]\<close>, where the rule constructs and
  generates, the returned mapping has exactly one entry, under the name with index 1,
  and none under the name with index 0. In every run, every rule that generates is
  logged under the name made of its own position, whatever nil rules stand before it.
\<close>

theorem nil_rule_skipped_index_kept:
  "process_rule X td t d p i NilPtr s =
     s\<lparr>logged := logged s @ [Errorf_skipped_nil_rule (synthetic_name p i)]\<rparr> \<and>
   (Rules p = [NilPtr, Ptr r] \<and> authzmodel_New X r = Inr m \<and>
    Generate X (MigrateTrustDomain X m td) t d = Inr (Ptr g) \<longrightarrow>
      build X [p] td t d =
        (Ptr \<lparr>http_Rules = Ptr \<lparr>Action = (if d then RBAC_DENY else RBAC_ALLOW),
           Policies = [''ns['' @ Namespace p @ '']-policy['' @ Name p @ '']-rule[1]'' \<mapsto> Ptr g]\<rparr>\<rparr>,
         [Errorf_skipped_nil_rule (''ns['' @ Namespace p @ '']-policy['' @ Name p @ '']-rule[0]''),
          Debugf_generated (''ns['' @ Namespace p @ '']-policy['' @ Name p @ '']-rule[1]'') (Ptr g)]) \<and>
      policies_of (fst (build X [p] td t d))
        (''ns['' @ Namespace p @ '']-policy['' @ Name p @ '']-rule[0]'') = None) \<and>
   (q \<in> set ps \<and> j < length (Rules q) \<and> Rules q ! j = Ptr r \<and> authzmodel_New X r = Inr m \<and>
    Generate X (MigrateTrustDomain X m td) t d = Inr (Ptr g) \<longrightarrow>
      Debugf_generated (synthetic_name q j) (Ptr g) \<in> set (snd (build X ps td t d)))"
proof (intro conjI impI)
  show "process_rule X td t d p i NilPtr s =
     s\<lparr>logged := logged s @ [Errorf_skipped_nil_rule (synthetic_name p i)]\<rparr>"
    by (simp add: process_rule_def)
next
  assume a: "Rules p = [NilPtr, Ptr r] \<and> authzmodel_New X r = Inr m \<and>
    Generate X (MigrateTrustDomain X m td) t d = Inr (Ptr g)"
  then show b: "build X [p] td t d =
        (Ptr \<lparr>http_Rules = Ptr \<lparr>Action = (if d then RBAC_DENY else RBAC_ALLOW),
           Policies = [''ns['' @ Namespace p @ '']-policy['' @ Name p @ '']-rule[1]'' \<mapsto> Ptr g]\<rparr>\<rparr>,
         [Errorf_skipped_nil_rule (''ns['' @ Namespace p @ '']-policy['' @ Name p @ '']-rule[0]''),
          Debugf_generated (''ns['' @ Namespace p @ '']-policy['' @ Name p @ '']-rule[1]'') (Ptr g)])"
    by (simp add: build_eval)
  show "policies_of (fst (build X [p] td t d))
        (''ns['' @ Namespace p @ '']-policy['' @ Name p @ '']-rule[0]'') = None"
    by (simp add: b policies_of_def)
next
  assume "q \<in> set ps \<and> j < length (Rules q) \<and> Rules q ! j = Ptr r \<and> authzmodel_New X r = Inr m \<and>
    Generate X (MigrateTrustDomain X m td) t d = Inr (Ptr g)"
  then have "(synthetic_name q j, Ptr g) \<in> set (entries X td t d ps)"
    by (simp add: generated_in_entries [where m = m and r = r])
  then show "Debugf_generated (synthetic_name q j) (Ptr g) \<in> set (snd (build X ps td t d))"
    by (simp add: Debugf_in_log)
qed

theorem nil_rule_skipped_index_kept_witness:
  "build example_env [example_policy ''ns1'' ''p1'' [NilPtr, Ptr 3]] () False True =
     (Ptr \<lparr>http_Rules = Ptr \<lparr>Action = RBAC_DENY,
        Policies = [''ns[ns1]-policy[p1]-rule[1]'' \<mapsto> Ptr 3]\<rparr>\<rparr>,
      [Errorf_skipped_nil_rule ''ns[ns1]-policy[p1]-rule[0]'',
       Debugf_generated ''ns[ns1]-policy[p1]-rule[1]'' (Ptr 3)]) \<and>
   policies_of (fst (build example_env [example_policy ''ns1'' ''p1'' [NilPtr, Ptr 3]] () False True))
     ''ns[ns1]-policy[p1]-rule[0]'' = None \<and>
   Debugf_generated ''ns[ns2]-policy[p2]-rule[1]'' (Ptr 4) \<in>
     set (snd (build example_env
       [example_policy ''ns1'' ''p1'' [NilPtr, Ptr 3], example_policy ''ns2'' ''p2'' [NilPtr, Ptr 4]]
       () False True))"
  using nil_rule_skipped_index_kept [of example_env "()" False True
      "example_policy ''ns1'' ''p1'' [NilPtr, Ptr 3]" 0 _ 3 3 3
      "example_policy ''ns2'' ''p2'' [NilPtr, Ptr 4]"
      "[example_policy ''ns1'' ''p1'' [NilPtr, Ptr 3], example_policy ''ns2'' ''p2'' [NilPtr, Ptr 4]]" 1]
    nil_rule_skipped_index_kept [of example_env "()" False True
      "example_policy ''ns1'' ''p1'' [NilPtr, Ptr 3]" 0 _ 4 4 4
      "example_policy ''ns2'' ''p2'' [NilPtr, Ptr 4]"
      "[example_policy ''ns1'' ''p1'' [NilPtr, Ptr 3], example_policy ''ns2'' ''p2'' [NilPtr, Ptr 4]]" 1]
  by (simp add: example_env_def example_policy_def synthetic_name_def fmt_d_1 policies_of_def)

text \<open>
  C8. For every non-empty policy sequence the rule set returned by \<open>build\<close> has action
  DENY if \<open>forDeny\<close> is true and ALLOW otherwise, whatever \<open>forTCP\<close> and the rules are.
  Its policies mapping starts empty: when no policy has a rule to process the mapping
  is empty, and in every run each key of the mapping is the synthetic name of a rule
  of the input.
\<close>

theorem build_action_from_forDeny:
  "ps \<noteq> [] \<longrightarrow>
     (\<exists>rs. fst (build X ps td t d) = Ptr \<lparr>http_Rules = Ptr rs\<rparr> \<and>
        Action rs = (if d then RBAC_DENY else RBAC_ALLOW) \<and>
        ((\<forall>p\<in>set ps. Rules p = []) \<longrightarrow> Policies rs = Map.empty) \<and>
        (\<forall>k\<in>dom (Policies rs). \<exists>p\<in>set ps. \<exists>i<length (Rules p). k = synthetic_name p i))"
proof
  assume ne: "ps \<noteq> []"
  have keys: "\<exists>p\<in>set ps. \<exists>i<length (Rules p). k = synthetic_name p i"
    if "k \<in> dom (map_of (rev (entries X td t d ps)))" for k
  proof -
    from that obtain v where "map_of (rev (entries X td t d ps)) k = Some v" by blast
    then have "(k, v) \<in> set (entries X td t d ps)"
      by (auto dest: map_of_SomeD)
    then show ?thesis by (rule entries_keys)
  qed
  show "\<exists>rs. fst (build X ps td t d) = Ptr \<lparr>http_Rules = Ptr rs\<rparr> \<and>
        Action rs = (if d then RBAC_DENY else RBAC_ALLOW) \<and>
        ((\<forall>p\<in>set ps. Rules p = []) \<longrightarrow> Policies rs = Map.empty) \<and>
        (\<forall>k\<in>dom (Policies rs). \<exists>p\<in>set ps. \<exists>i<length (Rules p). k = synthetic_name p i)"
    using ne keys by (simp add: build_eq entries_no_rules)
qed

theorem build_action_from_forDeny_witness:
  "fst (build example_env [example_policy ''ns1'' ''p1'' []] () True True) =
     Ptr \<lparr>http_Rules = Ptr \<lparr>Action = RBAC_DENY, Policies = Map.empty\<rparr>\<rparr> \<and>
   fst (build example_env [example_policy ''ns1'' ''p1'' []] () False False) =
     Ptr \<lparr>http_Rules = Ptr \<lparr>Action = RBAC_ALLOW, Policies = Map.empty\<rparr>\<rparr> \<and>
   (\<exists>rs. fst (build example_env [example_policy ''ns1'' ''p1'' [Ptr 3]] () True False) =
            Ptr \<lparr>http_Rules = Ptr rs\<rparr> \<and> Action rs = RBAC_ALLOW)"
proof -
  have r: "\<forall>p\<in>set [example_policy ''ns1'' ''p1'' []]. Rules p = []"
    by (simp add: example_policy_def)
  show ?thesis
    using r build_action_from_forDeny [of "[example_policy ''ns1'' ''p1'' []]" example_env "()" True True]
      build_action_from_forDeny [of "[example_policy ''ns1'' ''p1'' []]" example_env "()" False False]
      build_action_from_forDeny [of "[example_policy ''ns1'' ''p1'' [Ptr 3]]" example_env "()" True False]
    by auto
qed

text \<open>
  C9. \<open>build\<close> is deterministic: two runs on the same policies, bundle and flags, with
  collaborators that give the same answers on the rules of these policies, return the
  same result and the same log. So both results are nil, or both are rule sets with the
  same action, the same keys and the same generated policy under each key.
\<close>

theorem build_deterministic:
  assumes "\<forall>p\<in>set ps. \<forall>r. Ptr r \<in> set (Rules p) \<longrightarrow>
             authzmodel_New X r = authzmodel_New Y r \<and>
             (\<forall>m. authzmodel_New X r = Inr m \<longrightarrow>
                Generate X (MigrateTrustDomain X m td) t d = Generate Y (MigrateTrustDomain Y m td) t d)"
  shows "build X ps td t d = build Y ps td t d \<and>
         (fst (build X ps td t d) = NilPtr \<and> fst (build Y ps td t d) = NilPtr \<or>
          (\<exists>rs1 rs2. fst (build X ps td t d) = Ptr \<lparr>http_Rules = Ptr rs1\<rparr> \<and>
                     fst (build Y ps td t d) = Ptr \<lparr>http_Rules = Ptr rs2\<rparr> \<and>
                     Action rs1 = Action rs2 \<and> dom (Policies rs1) = dom (Policies rs2) \<and>
                     (\<forall>k. Policies rs1 k = Policies rs2 k)))"
proof -
  have "rule_outcome X td t d rule = rule_outcome Y td t d rule"
    if "p \<in> set ps" and "rule \<in> set (Rules p)" for p rule
    using assms that by (intro rule_outcome_cong) blast
  then have eq: "build X ps td t d = build Y ps td t d"
    by (intro build_cong) blast
  show ?thesis
  proof (cases "ps = []")
    case True
    with eq show ?thesis by (simp add: build_eq)
  next
    case False
    with eq show ?thesis by (simp add: build_eq)
  qed
qed

theorem build_deterministic_witness:
  "authzmodel_New example_env 7 \<noteq> authzmodel_New example_env' 7 \<and>
   build example_env [example_policy ''ns1'' ''p1'' [NilPtr, Ptr 0, Ptr 1, Ptr 2, Ptr 3]] () False False =
   build example_env' [example_policy ''ns1'' ''p1'' [NilPtr, Ptr 0, Ptr 1, Ptr 2, Ptr 3]] () False False"
proof -
  have "\<forall>p\<in>set [example_policy ''ns1'' ''p1'' [NilPtr, Ptr 0, Ptr 1, Ptr 2, Ptr 3]].
          \<forall>r. Ptr r \<in> set (Rules p) \<longrightarrow>
             authzmodel_New example_env r = authzmodel_New example_env' r \<and>
             (\<forall>m. authzmodel_New example_env r = Inr m \<longrightarrow>
                Generate example_env (MigrateTrustDomain example_env m ()) False False =
                Generate example_env' (MigrateTrustDomain example_env' m ()) False False)"
    by (auto simp add: example_env_def example_env'_def example_policy_def)
  from build_deterministic [OF this] show ?thesis
    by (simp add: example_env_def example_env'_def)
qed

text \<open>
  C10. No value stored in the policies mapping of a rule set returned by \<open>build\<close> is a
  nil pointer, for every policy sequence, bundle and flag combination.
\<close>

theorem build_policies_never_nil:
  "\<forall>c rs k. fst (build X ps td t d) = Ptr c \<and> http_Rules c = Ptr rs \<longrightarrow> Policies rs k \<noteq> Some NilPtr"
proof (intro allI impI)
  fix c rs k
  assume a: "fst (build X ps td t d) = Ptr c \<and> http_Rules c = Ptr rs"
  then have ne: "ps \<noteq> []" by (auto simp add: build_eq split: if_splits)
  with a have "Policies rs = map_of (rev (entries X td t d ps))"
    by (auto simp add: build_eq)
  moreover have "map_of (rev (entries X td t d ps)) k \<noteq> Some NilPtr"
  proof
    assume "map_of (rev (entries X td t d ps)) k = Some NilPtr"
    then have "(k, NilPtr) \<in> set (entries X td t d ps)"
      by (auto dest: map_of_SomeD)
    then show False by (auto dest: entries_values)
  qed
  ultimately show "Policies rs k \<noteq> Some NilPtr" by simp
qed

theorem build_policies_never_nil_witness:
  "fst (build example_env [example_policy ''ns1'' ''p1'' [Ptr 2, Ptr 3]] () False False) =
     Ptr \<lparr>http_Rules = Ptr \<lparr>Action = RBAC_ALLOW,
            Policies = [''ns[ns1]-policy[p1]-rule[1]'' \<mapsto> Ptr 3]\<rparr>\<rparr> \<and>
   [''ns[ns1]-policy[p1]-rule[1]'' \<mapsto> Ptr (3::nat)] ''ns[ns1]-policy[p1]-rule[0]'' \<noteq> Some NilPtr"
proof -
  have b: "fst (build example_env [example_policy ''ns1'' ''p1'' [Ptr 2, Ptr 3]] () False False) =
     Ptr \<lparr>http_Rules = Ptr \<lparr>Action = RBAC_ALLOW,
            Policies = [''ns[ns1]-policy[p1]-rule[1]'' \<mapsto> Ptr 3]\<rparr>\<rparr>"
    by (simp add: build_eval
        example_env_def example_policy_def)
  from build_policies_never_nil [of example_env "[example_policy ''ns1'' ''p1'' [Ptr 2, Ptr 3]]" "()" False False] b
  have "[''ns[ns1]-policy[p1]-rule[1]'' \<mapsto> Ptr (3::nat)] ''ns[ns1]-policy[p1]-rule[0]'' \<noteq> Some NilPtr"
    by fastforce
  with b show ?thesis by simp
qed

end
